theory Spec2Isabelle
  imports Complex_Main
begin

section \<open>Values of the program\<close>

subsection \<open>double\<close>

text \<open>
  A \<open>double\<close> of FuelMap.cpp is a finite number, one of the two infinities, or NaN.
  A finite double is carried as the real number it stands for: rounding, the finite
  range of the exponent and the sign of a zero are not part of this model, so every
  result stated below for finite values is the result in exact arithmetic. The special
  values follow IEEE 754, which is what a division by zero yields in the program
  (no exception is raised by a floating-point division).
\<close>

datatype dbl = Fin real | PInf | NInf | NaN

fun is_finite :: "dbl \<Rightarrow> bool" where
  "is_finite (Fin a) = True"
| "is_finite _ = False"

fun dneg :: "dbl \<Rightarrow> dbl" where
  "dneg (Fin a) = Fin (- a)"
| "dneg PInf = NInf"
| "dneg NInf = PInf"
| "dneg NaN = NaN"

fun dadd :: "dbl \<Rightarrow> dbl \<Rightarrow> dbl" where
  "dadd (Fin a) (Fin b) = Fin (a + b)"
| "dadd NaN _ = NaN"
| "dadd _ NaN = NaN"
| "dadd PInf NInf = NaN"
| "dadd NInf PInf = NaN"
| "dadd PInf _ = PInf"
| "dadd _ PInf = PInf"
| "dadd NInf _ = NInf"
| "dadd _ NInf = NInf"

definition dsub :: "dbl \<Rightarrow> dbl \<Rightarrow> dbl" where
  "dsub a b = dadd a (dneg b)"

fun dmul :: "dbl \<Rightarrow> dbl \<Rightarrow> dbl" where
  "dmul (Fin a) (Fin b) = Fin (a * b)"
| "dmul NaN _ = NaN"
| "dmul _ NaN = NaN"
| "dmul (Fin a) PInf = (if a = 0 then NaN else if 0 < a then PInf else NInf)"
| "dmul (Fin a) NInf = (if a = 0 then NaN else if 0 < a then NInf else PInf)"
| "dmul PInf (Fin b) = (if b = 0 then NaN else if 0 < b then PInf else NInf)"
| "dmul NInf (Fin b) = (if b = 0 then NaN else if 0 < b then NInf else PInf)"
| "dmul PInf PInf = PInf"
| "dmul NInf NInf = PInf"
| "dmul PInf NInf = NInf"
| "dmul NInf PInf = NInf"

text \<open>
  Division: a finite nonzero number over zero is an infinity, zero over zero is NaN,
  a finite number over an infinity is zero. A zero divisor is taken as \<open>+0.0\<close>.
\<close>

fun ddiv :: "dbl \<Rightarrow> dbl \<Rightarrow> dbl" where
  "ddiv (Fin a) (Fin b) =
     (if b = 0 then (if a = 0 then NaN else if 0 < a then PInf else NInf)
      else Fin (a / b))"
| "ddiv NaN _ = NaN"
| "ddiv _ NaN = NaN"
| "ddiv (Fin a) PInf = Fin 0"
| "ddiv (Fin a) NInf = Fin 0"
| "ddiv PInf (Fin b) = (if 0 \<le> b then PInf else NInf)"
| "ddiv NInf (Fin b) = (if 0 \<le> b then NInf else PInf)"
| "ddiv _ _ = NaN"

text \<open>The comparison \<open>a >= b\<close>; every comparison with NaN is false.\<close>

fun dge :: "dbl \<Rightarrow> dbl \<Rightarrow> bool" where
  "dge (Fin a) (Fin b) = (b \<le> a)"
| "dge NaN _ = False"
| "dge _ NaN = False"
| "dge PInf _ = True"
| "dge _ NInf = True"
| "dge _ _ = False"

definition dle :: "dbl \<Rightarrow> dbl \<Rightarrow> bool" where
  "dle a b = dge b a"

subsection \<open>int\<close>

text \<open>
  An \<open>int\<close> of the program is a 32-bit signed integer, carried as a mathematical
  integer. The only arithmetic on data is the subtraction in \<open>targetAFR\<close>; where its
  result does not fit the type, the program has undefined behaviour, which the
  model records as the fault \<open>SignedOverflow\<close>. The conversion \<open>double(i)\<close> is exact.
\<close>

datatype fault = InvalidArgument | OutOfBounds | SignedOverflow

definition INT_MIN :: int where
  "INT_MIN = - 2147483648"

definition INT_MAX :: int where
  "INT_MAX = 2147483647"

definition isub :: "int \<Rightarrow> int \<Rightarrow> fault + int" where
  "isub a b = (if INT_MIN \<le> a - b \<and> a - b \<le> INT_MAX then Inr (a - b) else Inl SignedOverflow)"

definition to_double :: "int \<Rightarrow> dbl" where
  "to_double i = Fin (of_int i)"

subsection \<open>Arrays behind pointers\<close>

text \<open>
  The axes and the table reach the program as raw pointers. A list stands for the array
  a pointer refers to; reading at an index outside the array is undefined behaviour in
  the program and the fault \<open>OutOfBounds\<close> in the model.
\<close>

definition rd :: "'a list \<Rightarrow> int \<Rightarrow> fault + 'a" where
  "rd xs i = (if 0 \<le> i \<and> i < int (length xs) then Inr (xs ! nat i) else Inl OutOfBounds)"

definition andThen :: "fault + 'a \<Rightarrow> ('a \<Rightarrow> fault + 'b) \<Rightarrow> fault + 'b" where
  "andThen m f = (case m of Inl e \<Rightarrow> Inl e | Inr x \<Rightarrow> f x)"

section \<open>The program\<close>

text \<open>
  The definitions follow FuelMap.cpp function by function and keep its names. Three
  names are taken in HOL and are changed: the field \<open>map\<close> of \<open>EngineState\<close> is
  \<open>map_kPa\<close>, and the parameters \<open>size\<close> and \<open>value\<close> of \<open>lowerIndex\<close> are \<open>sz\<close> and
  \<open>val\<close>. A function that can reach undefined behaviour or throw returns
  \<open>fault + result\<close>. The framework classes (\<open>SystemState\<close>, \<open>Controller\<close>,
  \<open>EngineFuelController\<close>), the unused \<open>LookupTable2D\<close> and the printing in \<open>main\<close>
  are outside the numeric pipeline and are not modelled.
\<close>

definition RPM_POINTS :: int where
  "RPM_POINTS = 6"

definition LOAD_POINTS :: int where
  "LOAD_POINTS = 5"

definition TABLE_SIZE :: int where
  "TABLE_SIZE = RPM_POINTS * LOAD_POINTS"

record EngineState =
  rpm :: int
  map_kPa :: int
  airMass :: dbl
  coolantTempC :: dbl
  measuredAFR :: dbl

subsection \<open>Injector\<close>

record Injector =
  flowRate :: dbl

definition Injector_ctor :: "dbl \<Rightarrow> fault + Injector" where
  "Injector_ctor flow =
     (if dle flow (Fin 0) then Inl InvalidArgument else Inr \<lparr>flowRate = flow\<rparr>)"

definition pulseWidth :: "Injector \<Rightarrow> dbl \<Rightarrow> dbl" where
  "pulseWidth this fuelMass = ddiv fuelMass (flowRate this)"

subsection \<open>FuelMap\<close>

record FuelMap =
  rpmAxis :: "int list"
  loadAxis :: "int list"
  afrTable :: "dbl list"

text \<open>The \<open>for\<close> loop of \<open>lowerIndex\<close>, entered at \<open>i\<close>; \<open>&&\<close> reads \<open>axis[i + 1]\<close>
  only when its left operand holds.\<close>

function lowerIndex_loop :: "int list \<Rightarrow> int \<Rightarrow> int \<Rightarrow> int \<Rightarrow> fault + int" where
  "lowerIndex_loop axis sz val i =
     (if i < sz - 1 then
        (case rd axis i of
           Inl e \<Rightarrow> Inl e
         | Inr a \<Rightarrow>
             if a \<le> val then
               (case rd axis (i + 1) of
                  Inl e \<Rightarrow> Inl e
                | Inr b \<Rightarrow> if val \<le> b then Inr i else lowerIndex_loop axis sz val (i + 1))
             else lowerIndex_loop axis sz val (i + 1))
      else Inr 0)"
  by pat_completeness auto
termination
  by (relation "measure (\<lambda>(axis, sz, val, i). nat (sz - 1 - i))") auto

declare lowerIndex_loop.simps [simp del]

definition lowerIndex :: "int list \<Rightarrow> int \<Rightarrow> int \<Rightarrow> fault + int" where
  "lowerIndex axis sz val =
     andThen (rd axis 0) (\<lambda>a0.
       if val \<le> a0 then Inr 0
       else andThen (rd axis (sz - 1)) (\<lambda>an.
         if an \<le> val then Inr (sz - 2)
         else lowerIndex_loop axis sz val 0))"

definition lerp :: "dbl \<Rightarrow> dbl \<Rightarrow> dbl \<Rightarrow> dbl" where
  "lerp a b t = dadd a (dmul t (dsub b a))"

definition index :: "int \<Rightarrow> int \<Rightarrow> int" where
  "index loadIndex rpmIndex = loadIndex * RPM_POINTS + rpmIndex"

definition applyColdStartEnrichment :: "dbl \<Rightarrow> dbl \<Rightarrow> dbl" where
  "applyColdStartEnrichment afr coolant =
     (if dge coolant (Fin 90.0) then afr
      else (let factor = dsub (Fin 1.3) (dmul (ddiv coolant (Fin 90.0)) (Fin 0.3))
            in dmul afr factor))"

definition applyClosedLoopCorrection :: "dbl \<Rightarrow> dbl \<Rightarrow> dbl" where
  "applyClosedLoopCorrection afr measured =
     (let error = dsub afr measured;
          correctionFactor = dsub (Fin 1.0) (dmul (Fin 0.1) error)
      in dmul afr correctionFactor)"

text \<open>The constructor's copy loop, entered at \<open>i\<close> with the cells \<open>0 .. i - 1\<close> of
  the member array already written (\<open>cells\<close>).\<close>

function FuelMap_copy :: "dbl list \<Rightarrow> dbl list \<Rightarrow> int \<Rightarrow> fault + dbl list" where
  "FuelMap_copy table cells i =
     (if i < TABLE_SIZE then
        (case rd table i of
           Inl e \<Rightarrow> Inl e
         | Inr v \<Rightarrow> FuelMap_copy table (cells @ [v]) (i + 1))
      else Inr cells)"
  by pat_completeness auto
termination
  by (relation "measure (\<lambda>(table, cells, i). nat (TABLE_SIZE - i))") auto

declare FuelMap_copy.simps [simp del]

definition FuelMap_ctor :: "int list \<Rightarrow> int list \<Rightarrow> dbl list \<Rightarrow> fault + FuelMap" where
  "FuelMap_ctor rpm_ax load_ax table =
     andThen (FuelMap_copy table [] 0) (\<lambda>cells.
       Inr \<lparr>rpmAxis = rpm_ax, loadAxis = load_ax, afrTable = cells\<rparr>)"

definition targetAFR :: "FuelMap \<Rightarrow> int \<Rightarrow> int \<Rightarrow> fault + dbl" where
  "targetAFR fm rpm_v load_v =
     andThen (lowerIndex (rpmAxis fm) RPM_POINTS rpm_v) (\<lambda>r.
     andThen (lowerIndex (loadAxis fm) LOAD_POINTS load_v) (\<lambda>l.
     andThen (rd (rpmAxis fm) r) (\<lambda>ar.
     andThen (rd (rpmAxis fm) (r + 1)) (\<lambda>ar1.
     andThen (isub rpm_v ar) (\<lambda>rnum.
     andThen (isub ar1 ar) (\<lambda>rden.
     andThen (rd (loadAxis fm) l) (\<lambda>al.
     andThen (rd (loadAxis fm) (l + 1)) (\<lambda>al1.
     andThen (isub load_v al) (\<lambda>lnum.
     andThen (isub al1 al) (\<lambda>lden.
       let rT = ddiv (to_double rnum) (to_double rden);
           lT = ddiv (to_double lnum) (to_double lden)
       in
     andThen (rd (afrTable fm) (index l r)) (\<lambda>q11.
     andThen (rd (afrTable fm) (index l (r + 1))) (\<lambda>q12.
     andThen (rd (afrTable fm) (index (l + 1) r)) (\<lambda>q21.
     andThen (rd (afrTable fm) (index (l + 1) (r + 1))) (\<lambda>q22.
       let r1 = lerp q11 q12 rT;
           r2 = lerp q21 q22 rT
       in Inr (lerp r1 r2 lT)))))))))))))))"

definition getFinalAFR :: "FuelMap \<Rightarrow> int \<Rightarrow> int \<Rightarrow> dbl \<Rightarrow> dbl \<Rightarrow> fault + dbl" where
  "getFinalAFR fm rpm_v load_v coolant measured =
     andThen (targetAFR fm rpm_v load_v) (\<lambda>afr0.
       let afr1 = applyColdStartEnrichment afr0 coolant;
           afr2 = applyClosedLoopCorrection afr1 measured
       in Inr afr2)"

subsection \<open>FuelController\<close>

record FuelController =
  fuelMap :: FuelMap
  injector :: Injector

definition computePulseWidth :: "FuelController \<Rightarrow> EngineState \<Rightarrow> fault + dbl" where
  "computePulseWidth fc state =
     andThen (getFinalAFR (fuelMap fc) (rpm state) (map_kPa state)
                (coolantTempC state) (measuredAFR state)) (\<lambda>afr.
       let fuelMass = ddiv (airMass state) afr
       in Inr (pulseWidth (injector fc) fuelMass))"

subsection \<open>The data of main\<close>

definition main_rpmAxis :: "int list" where
  "main_rpmAxis = [1000, 2000, 3000, 4000, 5000, 6000]"

definition main_loadAxis :: "int list" where
  "main_loadAxis = [20, 40, 60, 80, 100]"

definition main_afrTable :: "dbl list" where
  "main_afrTable = map Fin
     [14.7, 14.7, 14.7, 14.7, 14.7, 14.7,
      14.3, 14.1, 13.9, 13.7, 13.6, 13.6,
      13.6, 13.3, 13.0, 12.8, 12.8, 12.8,
      12.9, 12.6, 12.3, 12.0, 12.0, 12.0,
      12.2, 12.0, 11.8, 11.6, 11.5, 11.5]"

definition main_state :: EngineState where
  "main_state = \<lparr>rpm = 3500, map_kPa = 80, airMass = Fin 0.45,
                 coolantTempC = Fin 20.0, measuredAFR = Fin 14.0\<rparr>"

definition main_map :: FuelMap where
  "main_map = \<lparr>rpmAxis = main_rpmAxis, loadAxis = main_loadAxis, afrTable = main_afrTable\<rparr>"

definition main_injector :: Injector where
  "main_injector = \<lparr>flowRate = Fin 0.02\<rparr>"

definition main_controller :: FuelController where
  "main_controller = \<lparr>fuelMap = main_map, injector = main_injector\<rparr>"

subsection \<open>Further inputs used below\<close>

text \<open>The state of \<open>main\<close> with a warm engine and a sensor reading of 1.15, and the
  same with a reading of 2.15.\<close>

definition rich_state :: EngineState where
  "rich_state = \<lparr>rpm = 3500, map_kPa = 80, airMass = Fin 0.45,
                 coolantTempC = Fin 90.0, measuredAFR = Fin 1.15\<rparr>"

definition zero_state :: EngineState where
  "zero_state = \<lparr>rpm = 3500, map_kPa = 80, airMass = Fin 0.45,
                 coolantTempC = Fin 90.0, measuredAFR = Fin 2.15\<rparr>"

text \<open>The map of \<open>main\<close> with the second speed breakpoint equal to the first.\<close>

definition degenerate_map :: FuelMap where
  "degenerate_map = \<lparr>rpmAxis = [1000, 1000, 3000, 4000, 5000, 6000],
                      loadAxis = main_loadAxis, afrTable = main_afrTable\<rparr>"

text \<open>Every difference that \<open>targetAFR\<close> may form between the query \<open>v\<close> and a
  breakpoint, or between two breakpoints, fits an \<open>int\<close>.\<close>

definition no_overflow :: "int list \<Rightarrow> int \<Rightarrow> bool" where
  "no_overflow axis v =
     (\<forall>a\<in>set axis. INT_MIN \<le> v - a \<and> v - a \<le> INT_MAX \<and>
        (\<forall>b\<in>set axis. INT_MIN \<le> b - a \<and> b - a \<le> INT_MAX))"

section \<open>Basic facts\<close>

lemma rd_in: "0 \<le> i \<Longrightarrow> i < int (length xs) \<Longrightarrow> rd xs i = Inr (xs ! nat i)"
  by (simp add: rd_def)

lemma nf_dadd_l: "\<not> is_finite a \<Longrightarrow> \<not> is_finite (dadd a b)"
  by (cases a; cases b) simp_all

lemma nf_dadd_r: "\<not> is_finite b \<Longrightarrow> \<not> is_finite (dadd a b)"
  by (cases a; cases b) simp_all

lemma nf_dmul_l: "\<not> is_finite a \<Longrightarrow> \<not> is_finite (dmul a b)"
  by (cases a; cases b) simp_all

lemma nf_lerp_t: "\<not> is_finite t \<Longrightarrow> \<not> is_finite (lerp a b t)"
  by (simp add: lerp_def nf_dadd_r nf_dmul_l)

lemma nf_lerp_a: "\<not> is_finite a \<Longrightarrow> \<not> is_finite (lerp a b t)"
  by (simp add: lerp_def nf_dadd_l)

lemma cold_start_finite:
  "applyColdStartEnrichment (Fin a) (Fin t) =
     (if 90 \<le> t then Fin a else Fin (a * (1.3 - (t / 90.0) * 0.3)))"
  by (simp add: applyColdStartEnrichment_def dsub_def)

lemma closed_loop_finite:
  "applyClosedLoopCorrection (Fin a) (Fin m) = Fin (a * (1.0 - 0.1 * (a - m)))"
  by (simp add: applyClosedLoopCorrection_def dsub_def)

lemma getFinalAFR_finite:
  assumes "targetAFR fm rpm_v load_v = Inr a0"
    and "applyColdStartEnrichment a0 coolant = Fin e"
  shows "getFinalAFR fm rpm_v load_v coolant (Fin m) = Inr (Fin (e * (1.0 - 0.1 * (e - m))))"
  using assms by (simp add: getFinalAFR_def andThen_def closed_loop_finite)

lemma computePulseWidth_finite:
  assumes "getFinalAFR (fuelMap fc) (rpm s) (map_kPa s) (coolantTempC s) (measuredAFR s) = Inr (Fin c)"
    and "c \<noteq> 0" and "airMass s = Fin m" and "flowRate (injector fc) = Fin f" and "f \<noteq> 0"
  shows "computePulseWidth fc s = Inr (Fin (m / c / f))"
  using assms by (simp add: computePulseWidth_def andThen_def pulseWidth_def)

subsection \<open>The run of main\<close>

lemma main_lowerIndex_rpm: "lowerIndex main_rpmAxis RPM_POINTS 3500 = Inr 2"
  by (simp add: lowerIndex_def main_rpmAxis_def andThen_def rd_def lowerIndex_loop.simps
        RPM_POINTS_def)

lemma main_lowerIndex_load: "lowerIndex main_loadAxis LOAD_POINTS 80 = Inr 2"
  by (simp add: lowerIndex_def main_loadAxis_def andThen_def rd_def lowerIndex_loop.simps
        LOAD_POINTS_def)

lemma main_targetAFR: "targetAFR main_map 3500 80 = Inr (Fin 12.15)"
  unfolding targetAFR_def
  by (simp add: main_map_def main_lowerIndex_rpm main_lowerIndex_load)
     (simp add: main_loadAxis_def main_rpmAxis_def andThen_def rd_def RPM_POINTS_def
        isub_def INT_MIN_def INT_MAX_def to_double_def index_def main_afrTable_def
        lerp_def dsub_def)

lemma main_ctor: "FuelMap_ctor main_rpmAxis main_loadAxis main_afrTable = Inr main_map"
  by (simp add: FuelMap_ctor_def FuelMap_copy.simps andThen_def rd_def TABLE_SIZE_def
        RPM_POINTS_def LOAD_POINTS_def main_afrTable_def main_map_def)

lemma main_injector_ctor: "Injector_ctor (Fin 0.02) = Inr main_injector"
  by (simp add: Injector_ctor_def dle_def main_injector_def)

lemma main_getFinalAFR:
  "getFinalAFR main_map 3500 80 (Fin 20) (Fin 14) = Inr (Fin 13.5089775)"
  using getFinalAFR_finite [OF main_targetAFR, of "Fin 20" "14.985" 14]
  by (simp add: cold_start_finite)

lemma main_pulse:
  "computePulseWidth main_controller main_state = Inr (Fin (0.45 / 13.5089775 / 0.02))"
  using main_getFinalAFR
  by (simp add: computePulseWidth_def main_controller_def main_state_def andThen_def
        pulseWidth_def main_injector_def)

lemma rich_getFinalAFR:
  "getFinalAFR main_map 3500 80 (Fin 90) (Fin 1.15) = Inr (Fin (- 1.215))"
  using getFinalAFR_finite [OF main_targetAFR, of "Fin 90" "12.15" "1.15"]
  by (simp add: cold_start_finite)

lemma zero_getFinalAFR:
  "getFinalAFR main_map 3500 80 (Fin 90) (Fin 2.15) = Inr (Fin 0)"
  using getFinalAFR_finite [OF main_targetAFR, of "Fin 90" "12.15" "2.15"]
  by (simp add: cold_start_finite)

section \<open>The concrete scenario\<close>

text \<open>
  C1. With the axes, the table and the injector of \<open>main\<close> (flow rate 0.02 g/ms) and
  the reading (3500 rpm, 80 kPa, air mass 0.45, coolant 20.0, measured AFR 14.0):
  the constructors succeed, \<open>targetAFR 3500 80\<close> is exactly 12.15, cold-start
  enrichment multiplies it by \<open>1.3 - (20/90) * 0.3\<close>, which gives 14.985 (within 0.005
  of 14.98), the corrected AFR is 13.5089775 (within 0.005 of 13.51), and
  \<open>computePulseWidth\<close> returns \<open>0.45 / 13.5089775 / 0.02\<close>, within 0.001 of 1.665 ms.
\<close>

theorem main_scenario:
  "FuelMap_ctor main_rpmAxis main_loadAxis main_afrTable = Inr main_map \<and>
   Injector_ctor (Fin 0.02) = Inr main_injector \<and>
   targetAFR main_map 3500 80 = Inr (Fin 12.15) \<and>
   applyColdStartEnrichment (Fin 12.15) (Fin 20.0) = Fin (12.15 * (1.3 - (20 / 90) * 0.3)) \<and>
   \<bar>12.15 * (1.3 - (20 / 90) * 0.3) - 14.98\<bar> \<le> (0.005 :: real) \<and>
   getFinalAFR main_map 3500 80 (Fin 20.0) (Fin 14.0) = Inr (Fin 13.5089775) \<and>
   \<bar>13.5089775 - 13.51\<bar> < (0.005 :: real) \<and>
   computePulseWidth main_controller main_state = Inr (Fin (0.45 / 13.5089775 / 0.02)) \<and>
   \<bar>0.45 / 13.5089775 / 0.02 - 1.665\<bar> < (0.001 :: real)"
  using main_ctor main_injector_ctor main_targetAFR main_getFinalAFR main_pulse
  by (simp add: cold_start_finite)

section \<open>Construction of a Fuel Map\<close>

lemma FuelMap_copy_ok:
  "nat TABLE_SIZE \<le> length table \<Longrightarrow> 0 \<le> i \<Longrightarrow> i \<le> TABLE_SIZE \<Longrightarrow>
   FuelMap_copy table cells i = Inr (cells @ drop (nat i) (take (nat TABLE_SIZE) table))"
proof (induction table cells i rule: FuelMap_copy.induct)
  case (1 table cells i)
  show ?case
  proof (cases "i < TABLE_SIZE")
    case False
    then have "FuelMap_copy table cells i = Inr cells"
      by (simp add: FuelMap_copy.simps [of table cells i])
    moreover from False have "drop (nat i) (take (nat TABLE_SIZE) table) = []" by simp
    ultimately show ?thesis by simp
  next
    case True
    with "1.prems" have ri: "rd table i = Inr (table ! nat i)" by (simp add: rd_def)
    from True "1.prems" have lt: "nat i < length (take (nat TABLE_SIZE) table)" by simp
    from True "1.prems" have nth: "take (nat TABLE_SIZE) table ! nat i = table ! nat i" by simp
    from "1.prems" have suc: "nat (i + 1) = Suc (nat i)" by linarith
    have "FuelMap_copy table cells i = FuelMap_copy table (cells @ [table ! nat i]) (i + 1)"
      using True ri by (simp add: FuelMap_copy.simps [of table cells i])
    also have "\<dots> = Inr ((cells @ [table ! nat i]) @
                        drop (nat (i + 1)) (take (nat TABLE_SIZE) table))"
      using "1.IH" [OF True ri] True "1.prems" by simp
    also have "\<dots> = Inr (cells @ drop (nat i) (take (nat TABLE_SIZE) table))"
      using Cons_nth_drop_Suc [OF lt] by (simp add: suc nth)
    finally show ?thesis .
  qed
qed

lemma FuelMap_copy_short:
  "length table < nat TABLE_SIZE \<Longrightarrow> 0 \<le> i \<Longrightarrow> i < TABLE_SIZE \<Longrightarrow>
   FuelMap_copy table cells i = Inl OutOfBounds"
proof (induction table cells i rule: FuelMap_copy.induct)
  case (1 table cells i)
  show ?case
  proof (cases "i < int (length table)")
    case False
    with "1.prems" show ?thesis
      by (simp add: FuelMap_copy.simps [of table cells i] rd_def)
  next
    case True
    with "1.prems" have ri: "rd table i = Inr (table ! nat i)" by (simp add: rd_def)
    from True "1.prems" have nxt: "i + 1 < TABLE_SIZE" by linarith
    have "FuelMap_copy table cells i = FuelMap_copy table (cells @ [table ! nat i]) (i + 1)"
      using "1.prems" ri by (simp add: FuelMap_copy.simps [of table cells i])
    also have "\<dots> = Inl OutOfBounds"
      using "1.IH" [OF "1.prems"(3) ri "1.prems"(1) _ nxt] "1.prems"(2) by simp
    finally show ?thesis .
  qed
qed

text \<open>
  C2, as the specification states it, does not hold. The constructor is given no
  lengths. A table of 31 values for the 6 by 5 axes of \<open>main\<close> is accepted (the extra
  value is ignored), and so is the 30-value table with two axes of 2 breakpoints each,
  whose product is 4.
\<close>

theorem mismatched_table_is_accepted:
  "length (main_afrTable @ [Fin 0]) = 31 \<and> length main_rpmAxis * length main_loadAxis = 30 \<and>
   FuelMap_ctor main_rpmAxis main_loadAxis (main_afrTable @ [Fin 0]) = Inr main_map \<and>
   length [1000, 2000 :: int] * length [20, 40 :: int] = 4 \<and> length main_afrTable = 30 \<and>
   FuelMap_ctor [1000, 2000] [20, 40] main_afrTable =
     Inr \<lparr>rpmAxis = [1000, 2000], loadAxis = [20, 40], afrTable = main_afrTable\<rparr>"
  by (simp add: FuelMap_ctor_def FuelMap_copy.simps andThen_def rd_def TABLE_SIZE_def
        RPM_POINTS_def LOAD_POINTS_def main_afrTable_def main_map_def main_rpmAxis_def
        main_loadAxis_def)

text \<open>
  C2, amended. The constructor checks no shape and signals no error. It keeps the two
  axis pointers as they are and copies the first \<open>TABLE_SIZE\<close> = 30 values of the table:
  from any table of at least 30 values it creates a Fuel Map holding the first 30,
  whatever the lengths of the axes; a table of fewer than 30 values is read past its
  end, which is undefined behaviour and not a rejection.
\<close>

theorem FuelMap_ctor_unchecked:
  "FuelMap_ctor rpm_ax load_ax table =
     (if nat TABLE_SIZE \<le> length table
      then Inr \<lparr>rpmAxis = rpm_ax, loadAxis = load_ax, afrTable = take (nat TABLE_SIZE) table\<rparr>
      else Inl OutOfBounds)"
proof (cases "nat TABLE_SIZE \<le> length table")
  case True
  then have "FuelMap_copy table [] 0 = Inr (take (nat TABLE_SIZE) table)"
    using FuelMap_copy_ok [of table 0 "[]"]
    by (simp add: TABLE_SIZE_def RPM_POINTS_def LOAD_POINTS_def)
  with True show ?thesis by (simp add: FuelMap_ctor_def andThen_def)
next
  case False
  then have "FuelMap_copy table [] 0 = Inl OutOfBounds"
    using FuelMap_copy_short [of table 0 "[]"]
    by (simp add: TABLE_SIZE_def RPM_POINTS_def LOAD_POINTS_def)
  with False show ?thesis by (simp add: FuelMap_ctor_def andThen_def)
qed

theorem FuelMap_ctor_unchecked_witness:
  "FuelMap_ctor main_rpmAxis main_loadAxis (main_afrTable @ [Fin 0, Fin 1]) = Inr main_map \<and>
   FuelMap_ctor main_rpmAxis main_loadAxis (butlast main_afrTable) = Inl OutOfBounds"
  using FuelMap_ctor_unchecked [of main_rpmAxis main_loadAxis "main_afrTable @ [Fin 0, Fin 1]"]
    FuelMap_ctor_unchecked [of main_rpmAxis main_loadAxis "butlast main_afrTable"]
  by (simp add: TABLE_SIZE_def RPM_POINTS_def LOAD_POINTS_def main_afrTable_def main_map_def)

section \<open>The converter\<close>

text \<open>
  C3, as the specification states it, does not hold. With the map and injector of
  \<open>main\<close>, a warm engine and a measured AFR of 1.15, the corrected AFR that reaches the
  converter is -1.215; \<open>computePulseWidth\<close> divides by it and returns the negative
  pulse width \<open>0.45 / (-1.215) / 0.02\<close> as an ordinary result.
\<close>

theorem negative_afr_is_divided_by:
  "getFinalAFR main_map 3500 80 (Fin 90.0) (Fin 1.15) = Inr (Fin (- 1.215)) \<and>
   computePulseWidth main_controller rich_state = Inr (Fin (0.45 / (- 1.215) / 0.02))"
  using rich_getFinalAFR
  by (simp add: computePulseWidth_def andThen_def pulseWidth_def main_controller_def
        main_injector_def rich_state_def)

text \<open>
  C3, amended. The fuel-mass conversion signals no error when the corrected AFR that
  reaches it is less than or equal to 0: \<open>computePulseWidth\<close> performs the division
  \<open>airMass / correctedAFR\<close> and returns its outcome. For a negative corrected AFR \<open>c\<close>,
  a non-negative air mass \<open>m\<close> and a positive flow rate \<open>f\<close> the result is the
  non-positive number \<open>m / c / f\<close>; for a corrected AFR of zero it is an infinity or NaN.
\<close>

theorem computePulseWidth_unguarded:
  assumes afr: "getFinalAFR (fuelMap fc) (rpm s) (map_kPa s) (coolantTempC s) (measuredAFR s) =
                  Inr (Fin c)"
    and c: "c \<le> 0" and m: "airMass s = Fin m" "0 \<le> m"
    and f: "flowRate (injector fc) = Fin f" "0 < f"
  shows "\<exists>p. computePulseWidth fc s = Inr p \<and>
           (if c < 0 then p = Fin (m / c / f) \<and> m / c / f \<le> 0 else \<not> is_finite p)"
proof (cases "c < 0")
  case True
  with afr m f have "computePulseWidth fc s = Inr (Fin (m / c / f))"
    by (simp add: computePulseWidth_finite)
  moreover have "m / c / f \<le> 0"
  proof (rule divide_nonpos_pos)
    from m(2) True show "m / c \<le> 0" by (rule divide_nonneg_neg)
    from f(2) show "0 < f" .
  qed
  ultimately show ?thesis using True by simp
next
  case False
  with c have "c = 0" by simp
  with afr m f have "computePulseWidth fc s = Inr (ddiv (ddiv (Fin m) (Fin 0)) (Fin f))"
    by (simp add: computePulseWidth_def andThen_def pulseWidth_def)
  moreover from f(2) have "\<not> is_finite (ddiv (ddiv (Fin m) (Fin 0)) (Fin f))"
    by simp
  ultimately show ?thesis using False by simp
qed

theorem computePulseWidth_unguarded_witness:
  "getFinalAFR main_map 3500 80 (Fin 90) (Fin 1.15) = Inr (Fin (- 1.215)) \<and>
   computePulseWidth main_controller rich_state = Inr (Fin (0.45 / (- 1.215) / 0.02)) \<and>
   getFinalAFR main_map 3500 80 (Fin 90) (Fin 2.15) = Inr (Fin 0) \<and>
   (\<exists>p. computePulseWidth main_controller zero_state = Inr p \<and> \<not> is_finite p)"
  using computePulseWidth_unguarded [of main_controller rich_state "- 1.215" "0.45" "0.02"]
    computePulseWidth_unguarded [of main_controller zero_state 0 "0.45" "0.02"]
    rich_getFinalAFR zero_getFinalAFR
  by (simp add: main_controller_def main_injector_def rich_state_def zero_state_def)

text \<open>
  C8. Round trip of the converter: for every reading and injector for which the
  corrected AFR \<open>c\<close> is positive and the flow rate \<open>f\<close> is positive, the pulse width
  \<open>pw\<close> that \<open>computePulseWidth\<close> returns satisfies \<open>pw * f * c = airMass\<close>
  (in exact arithmetic).
\<close>

theorem round_trip:
  assumes "getFinalAFR (fuelMap fc) (rpm s) (map_kPa s) (coolantTempC s) (measuredAFR s) =
             Inr (Fin c)"
    and "0 < c" and "flowRate (injector fc) = Fin f" and "0 < f" and "airMass s = Fin m"
  shows "\<exists>pw. computePulseWidth fc s = Inr (Fin pw) \<and> pw * f * c = m"
  using assms by (simp add: computePulseWidth_finite)

theorem round_trip_witness:
  "getFinalAFR (fuelMap main_controller) (rpm main_state) (map_kPa main_state)
     (coolantTempC main_state) (measuredAFR main_state) = Inr (Fin 13.5089775) \<and>
   (0 :: real) < 13.5089775 \<and> flowRate (injector main_controller) = Fin 0.02 \<and>
   (0 :: real) < 0.02 \<and> airMass main_state = Fin 0.45 \<and>
   (\<exists>pw. computePulseWidth main_controller main_state = Inr (Fin pw) \<and>
         pw * 0.02 * 13.5089775 = 0.45)"
  using round_trip [of main_controller main_state "13.5089775" "0.02" "0.45"] main_getFinalAFR
  by (simp add: main_controller_def main_state_def main_injector_def)

section \<open>The correction stages\<close>

text \<open>
  C6. Cold-start enrichment returns the AFR unchanged for every coolant temperature
  \<open>>= 90.0\<close> (for every AFR); for a coolant temperature \<open>c < 90.0\<close> it returns
  \<open>afr * (1.3 - (c / 90.0) * 0.3)\<close>; at 0.0 it multiplies the AFR by exactly 1.3.
\<close>

theorem cold_start_formula:
  "(dge t (Fin 90.0) \<longrightarrow> applyColdStartEnrichment afr t = afr) \<and>
   (c < 90.0 \<longrightarrow>
      applyColdStartEnrichment (Fin a) (Fin c) = Fin (a * (1.3 - (c / 90.0) * 0.3))) \<and>
   applyColdStartEnrichment (Fin a) (Fin 0.0) = Fin (a * 1.3)"
  by (simp add: applyColdStartEnrichment_def dsub_def)

theorem cold_start_formula_witness:
  "dge (Fin 95) (Fin 90.0) \<and> applyColdStartEnrichment (Fin 12.15) (Fin 95) = Fin 12.15 \<and>
   (20 :: real) < 90.0 \<and>
   applyColdStartEnrichment (Fin 12.15) (Fin 20) = Fin (12.15 * (1.3 - (20 / 90.0) * 0.3)) \<and>
   applyColdStartEnrichment (Fin 12.15) (Fin 0.0) = Fin (12.15 * 1.3)"
  using cold_start_formula [of "Fin 95" "Fin 12.15" 20 "12.15"] by simp

lemma cold_start_never_lowers:
  assumes "0 < a" and "c < 90"
  shows "\<exists>e. applyColdStartEnrichment (Fin a) (Fin c) = Fin e \<and> a < e"
proof -
  from assms(2) have "1 < 1.3 - (c / 90.0) * 0.3" by simp
  with assms(1) have "a * 1 < a * (1.3 - (c / 90.0) * 0.3)"
    by (rule mult_strict_left_mono [rotated])
  with assms(2) show ?thesis
    by (simp add: applyColdStartEnrichment_def dsub_def)
qed

text \<open>
  C7 asks that below 90.0 degrees the output AFR be lower than a positive input AFR
  (a richer mixture). The function does the opposite: at an AFR of 12.15 and a coolant
  temperature of 20 it returns 14.985, which is higher than its input.
\<close>

theorem cold_start_raises_afr:
  "applyColdStartEnrichment (Fin 12.15) (Fin 20) = Fin 14.985 \<and> (12.15 :: real) < 14.985"
  by (simp add: applyColdStartEnrichment_def dsub_def)

text \<open>
  C10. Closed-loop correction computes \<open>afr * (1.0 - 0.1 * (afr - measuredAFR))\<close>.
  Whenever the AFR \<open>e\<close> that enters it is positive and exceeds the measured AFR by 10
  or more, the corrected AFR is less than or equal to 0; \<open>getFinalAFR\<close> returns that
  value, and \<open>computePulseWidth\<close> divides the air mass by it without any check.
\<close>

theorem closed_loop_nonpositive:
  assumes t: "targetAFR fm (rpm s) (map_kPa s) = Inr a0"
    and e: "applyColdStartEnrichment a0 (coolantTempC s) = Fin e"
    and m: "measuredAFR s = Fin m"
    and pos: "0 < e" and gap: "10 \<le> e - m"
  shows "applyClosedLoopCorrection (Fin e) (Fin m) = Fin (e * (1.0 - 0.1 * (e - m))) \<and>
         e * (1.0 - 0.1 * (e - m)) \<le> 0 \<and>
         getFinalAFR fm (rpm s) (map_kPa s) (coolantTempC s) (measuredAFR s) =
           Inr (Fin (e * (1.0 - 0.1 * (e - m)))) \<and>
         computePulseWidth \<lparr>fuelMap = fm, injector = ij\<rparr> s =
           Inr (ddiv (ddiv (airMass s) (Fin (e * (1.0 - 0.1 * (e - m))))) (flowRate ij))"
proof -
  have cl: "applyClosedLoopCorrection (Fin e) (Fin m) = Fin (e * (1.0 - 0.1 * (e - m)))"
    by (rule closed_loop_finite)
  from gap have "1.0 - 0.1 * (e - m) \<le> 0" by simp
  with pos have np: "e * (1.0 - 0.1 * (e - m)) \<le> 0"
    by (simp add: mult_nonneg_nonpos)
  have g: "getFinalAFR fm (rpm s) (map_kPa s) (coolantTempC s) (measuredAFR s) =
           Inr (Fin (e * (1.0 - 0.1 * (e - m))))"
    using getFinalAFR_finite [OF t e] m by simp
  then have "computePulseWidth \<lparr>fuelMap = fm, injector = ij\<rparr> s =
           Inr (ddiv (ddiv (airMass s) (Fin (e * (1.0 - 0.1 * (e - m))))) (flowRate ij))"
    by (simp add: computePulseWidth_def andThen_def pulseWidth_def)
  with cl np g show ?thesis by simp
qed

theorem closed_loop_nonpositive_witness:
  "targetAFR main_map (rpm rich_state) (map_kPa rich_state) = Inr (Fin 12.15) \<and>
   applyColdStartEnrichment (Fin 12.15) (coolantTempC rich_state) = Fin 12.15 \<and>
   measuredAFR rich_state = Fin 1.15 \<and> (0 :: real) < 12.15 \<and> (10 :: real) \<le> 12.15 - 1.15 \<and>
   applyClosedLoopCorrection (Fin 12.15) (Fin 1.15) = Fin (- 1.215) \<and>
   getFinalAFR main_map (rpm rich_state) (map_kPa rich_state) (coolantTempC rich_state)
     (measuredAFR rich_state) = Inr (Fin (- 1.215)) \<and>
   computePulseWidth \<lparr>fuelMap = main_map, injector = main_injector\<rparr> rich_state =
     Inr (Fin (- (500 / 27)))"
proof -
  have h: "targetAFR main_map (rpm rich_state) (map_kPa rich_state) = Inr (Fin 12.15)"
    "applyColdStartEnrichment (Fin 12.15) (coolantTempC rich_state) = Fin 12.15"
    "measuredAFR rich_state = Fin 1.15" "(0 :: real) < 12.15" "(10 :: real) \<le> 12.15 - 1.15"
    using main_targetAFR by (simp_all add: rich_state_def cold_start_finite)
  from closed_loop_nonpositive [OF h, of main_injector] h show ?thesis
    by (simp add: rich_state_def main_injector_def)
qed

section \<open>The axis locator\<close>

lemma lowerIndex_loop_range:
  "length axis = nat sz \<Longrightarrow> 0 \<le> i \<Longrightarrow>
   \<exists>k. lowerIndex_loop axis sz val i = Inr k \<and> (k = 0 \<or> (i \<le> k \<and> k < sz - 1))"
proof (induction axis sz val i rule: lowerIndex_loop.induct)
  case (1 axis sz val i)
  show ?case
  proof (cases "i < sz - 1")
    case False
    then show ?thesis by (simp add: lowerIndex_loop.simps [of axis sz val i])
  next
    case True
    with "1.prems" have ri: "rd axis i = Inr (axis ! nat i)"
      and rs: "rd axis (i + 1) = Inr (axis ! nat (i + 1))"
      by (simp_all add: rd_in)
    show ?thesis
    proof (cases "axis ! nat i \<le> val \<and> val \<le> axis ! nat (i + 1)")
      case hit: True
      with True ri rs show ?thesis
        by (simp add: lowerIndex_loop.simps [of axis sz val i])
    next
      case miss: False
      have step: "lowerIndex_loop axis sz val i = lowerIndex_loop axis sz val (i + 1)"
        using True ri rs miss by (auto simp add: lowerIndex_loop.simps [of axis sz val i])
      have "\<exists>k. lowerIndex_loop axis sz val (i + 1) = Inr k \<and>
                (k = 0 \<or> (i + 1 \<le> k \<and> k < sz - 1))"
      proof (cases "axis ! nat i \<le> val")
        case True
        with miss have "\<not> val \<le> axis ! nat (i + 1)" by simp
        from "1.IH"(1) [OF \<open>i < sz - 1\<close> ri True rs this] "1.prems" show ?thesis by simp
      next
        case False
        from "1.IH"(2) [OF \<open>i < sz - 1\<close> ri False] "1.prems" show ?thesis by simp
      qed
      with step show ?thesis by auto
    qed
  qed
qed

lemma lowerIndex_range:
  assumes "length axis = nat sz" and "2 \<le> sz"
  shows "\<exists>k. lowerIndex axis sz val = Inr k \<and> 0 \<le> k \<and> k \<le> sz - 2"
proof -
  from assms have r0: "rd axis 0 = Inr (axis ! 0)"
    and rn: "rd axis (sz - 1) = Inr (axis ! nat (sz - 1))"
    by (simp_all add: rd_def)
  from lowerIndex_loop_range [of axis sz 0 val] assms
  obtain k where "lowerIndex_loop axis sz val 0 = Inr k" and "0 \<le> k" and "k \<le> sz - 2"
    by auto
  with r0 rn assms show ?thesis
    by (auto simp add: lowerIndex_def andThen_def)
qed

lemma lowerIndex_loop_first:
  assumes "length axis = nat sz"
    and "0 \<le> i" and "i \<le> k" and "k < sz - 1"
    and "axis ! nat k \<le> val" and "val \<le> axis ! nat (k + 1)"
    and "\<forall>j. i \<le> j \<and> j < k \<longrightarrow> \<not> (axis ! nat j \<le> val \<and> val \<le> axis ! nat (j + 1))"
  shows "lowerIndex_loop axis sz val i = Inr k"
  using assms(2,3,7)
proof (induction "nat (k - i)" arbitrary: i)
  case 0
  then have "i = k" by simp
  moreover from assms(1,4) \<open>0 \<le> i\<close> \<open>i = k\<close> have "rd axis k = Inr (axis ! nat k)"
    and "rd axis (k + 1) = Inr (axis ! nat (k + 1))"
    by (simp_all add: rd_in)
  ultimately show ?case
    using assms(4,5,6) by (simp add: lowerIndex_loop.simps [of axis sz val k])
next
  case (Suc n)
  then have lt: "i < k" by simp
  with assms(1,4) \<open>0 \<le> i\<close> have ri: "rd axis i = Inr (axis ! nat i)"
    and rs: "rd axis (i + 1) = Inr (axis ! nat (i + 1))"
    by (simp_all add: rd_in)
  from Suc.prems(3) lt have miss: "\<not> (axis ! nat i \<le> val \<and> val \<le> axis ! nat (i + 1))"
    by simp
  have step: "lowerIndex_loop axis sz val i = lowerIndex_loop axis sz val (i + 1)"
    using lt assms(4) ri rs miss by (auto simp add: lowerIndex_loop.simps [of axis sz val i])
  have "lowerIndex_loop axis sz val (i + 1) = Inr k"
  proof (rule Suc.hyps(1))
    show "n = nat (k - (i + 1))" using Suc.hyps(2) by simp
    show "0 \<le> i + 1" using \<open>0 \<le> i\<close> by simp
    show "i + 1 \<le> k" using lt by simp
    show "\<forall>j. i + 1 \<le> j \<and> j < k \<longrightarrow> \<not> (axis ! nat j \<le> val \<and> val \<le> axis ! nat (j + 1))"
      using Suc.prems(3) by simp
  qed
  with step show ?case by simp
qed


lemma lowerIndex_first:
  assumes len: "length axis = nat sz" and sz: "2 \<le> sz"
    and lo: "axis ! 0 < val" and hi: "val < axis ! nat (sz - 1)"
    and k: "0 \<le> k" "k < sz - 1"
    and hit: "axis ! nat k \<le> val" "val \<le> axis ! nat (k + 1)"
    and first: "\<forall>j. 0 \<le> j \<and> j < k \<longrightarrow> \<not> (axis ! nat j \<le> val \<and> val \<le> axis ! nat (j + 1))"
  shows "lowerIndex axis sz val = Inr k"
proof -
  from len sz have "rd axis 0 = Inr (axis ! 0)" and "rd axis (sz - 1) = Inr (axis ! nat (sz - 1))"
    by (simp_all add: rd_def)
  moreover have "lowerIndex_loop axis sz val 0 = Inr k"
    using len _ k(1) k(2) hit first by (rule lowerIndex_loop_first) simp
  ultimately show ?thesis
    using lo hi by (simp add: lowerIndex_def andThen_def)
qed

lemma interval_exists:
  fixes axis :: "int list"
  assumes "Suc m < length axis" and "axis ! 0 < val" and "val < axis ! Suc m"
  shows "\<exists>k\<le>m. axis ! k \<le> val \<and> val \<le> axis ! Suc k \<and>
           (\<forall>j<k. \<not> (axis ! j \<le> val \<and> val \<le> axis ! Suc j))"
proof -
  define k where "k = (LEAST j. val \<le> axis ! Suc j)"
  have ex: "val \<le> axis ! Suc m" using assms(3) by simp
  then have kp: "val \<le> axis ! Suc k" unfolding k_def by (rule LeastI)
  have km: "k \<le> m" unfolding k_def using ex by (rule Least_le)
  have below: "\<not> val \<le> axis ! Suc j" if "j < k" for j
    using that not_less_Least unfolding k_def by blast
  have "axis ! k \<le> val"
  proof (cases k)
    case 0
    with assms(2) show ?thesis by simp
  next
    case (Suc k')
    then have "k' < k" by simp
    from below [OF this] Suc show ?thesis by simp
  qed
  with kp km below show ?thesis by blast
qed

text \<open>
  C5, as the specification states it, does not hold in its last part. On the load
  axis of \<open>main\<close> the query 80 equals the breakpoint at index 3, yet the locator
  returns 2, the interval from 60 to 80 that ends at the breakpoint, not the interval
  that starts at it.
\<close>

theorem tie_resolves_to_the_earlier_interval:
  "lowerIndex main_loadAxis 5 80 = Inr 2 \<and> main_loadAxis ! 3 = 80 \<and> main_loadAxis ! 2 = 60"
  by (simp add: lowerIndex_def main_loadAxis_def andThen_def rd_def lowerIndex_loop.simps)

text \<open>
  C5, amended. For every strictly increasing axis of size at least 2, the locator
  returns 0 when the value is \<open><= axis[0]\<close>, returns \<open>size - 2\<close> when the value is
  \<open>>= axis[last]\<close>, and otherwise returns the index of the first interval
  \<open>[axis[i], axis[i + 1]]\<close> that contains the value, scanning in increasing order.
  A value equal to an interior breakpoint \<open>axis[b]\<close> (\<open>0 < b < last\<close>) resolves to the
  interval that ends at that breakpoint, index \<open>b - 1\<close>.
\<close>

theorem lowerIndex_locates:
  assumes inc: "sorted_wrt (<) axis" and len: "length axis = nat sz" and sz: "2 \<le> sz"
  shows "(val \<le> axis ! 0 \<longrightarrow> lowerIndex axis sz val = Inr 0) \<and>
         (axis ! nat (sz - 1) \<le> val \<longrightarrow> lowerIndex axis sz val = Inr (sz - 2)) \<and>
         (axis ! 0 < val \<and> val < axis ! nat (sz - 1) \<longrightarrow>
            (\<exists>i. lowerIndex axis sz val = Inr i \<and> 0 \<le> i \<and> i \<le> sz - 2 \<and>
                 axis ! nat i \<le> val \<and> val \<le> axis ! nat (i + 1) \<and>
                 (\<forall>j. 0 \<le> j \<and> j < i \<longrightarrow>
                    \<not> (axis ! nat j \<le> val \<and> val \<le> axis ! nat (j + 1))))) \<and>
         (0 < b \<and> b < sz - 1 \<longrightarrow> lowerIndex axis sz (axis ! nat b) = Inr (b - 1))"
proof -
  from len sz have r0: "rd axis 0 = Inr (axis ! 0)"
    and rn: "rd axis (sz - 1) = Inr (axis ! nat (sz - 1))"
    by (simp_all add: rd_def)
  have less: "axis ! i < axis ! j" if "i < j" "j < length axis" for i j
    using inc that by (rule sorted_wrt_nth_less)
  have ends: "axis ! 0 < axis ! nat (sz - 1)"
    using len sz by (intro less) simp_all
  have low: "lowerIndex axis sz val = Inr 0" if "val \<le> axis ! 0"
    using that r0 by (simp add: lowerIndex_def andThen_def)
  have high: "lowerIndex axis sz val = Inr (sz - 2)" if "axis ! nat (sz - 1) \<le> val"
    using that ends r0 rn by (simp add: lowerIndex_def andThen_def)
  have mid: "\<exists>i. lowerIndex axis sz val = Inr i \<and> 0 \<le> i \<and> i \<le> sz - 2 \<and>
                 axis ! nat i \<le> val \<and> val \<le> axis ! nat (i + 1) \<and>
                 (\<forall>j. 0 \<le> j \<and> j < i \<longrightarrow>
                    \<not> (axis ! nat j \<le> val \<and> val \<le> axis ! nat (j + 1)))"
    if lo: "axis ! 0 < val" and hi: "val < axis ! nat (sz - 1)"
  proof -
    define m where "m = nat (sz - 2)"
    have sm: "Suc m = nat (sz - 1)" using sz by (simp add: m_def)
    have "Suc m < length axis" using len sz by (simp add: m_def)
    moreover have "val < axis ! Suc m" using hi sm by simp
    ultimately obtain k where k: "k \<le> m" "axis ! k \<le> val" "val \<le> axis ! Suc k"
      "\<forall>j<k. \<not> (axis ! j \<le> val \<and> val \<le> axis ! Suc j)"
      using interval_exists [OF _ lo] by blast
    have suc: "nat (int j + 1) = Suc j" for j by simp
    have nomatch: "\<forall>j. 0 \<le> j \<and> j < int k \<longrightarrow>
        \<not> (axis ! nat j \<le> val \<and> val \<le> axis ! nat (j + 1))"
    proof (intro allI impI)
      fix j :: int
      assume j: "0 \<le> j \<and> j < int k"
      then have "nat j < k" by linarith
      with k(4) have "\<not> (axis ! nat j \<le> val \<and> val \<le> axis ! Suc (nat j))" by simp
      moreover from j have "nat (j + 1) = Suc (nat j)" by linarith
      ultimately show "\<not> (axis ! nat j \<le> val \<and> val \<le> axis ! nat (j + 1))" by simp
    qed
    have kb: "int k < sz - 1" using k(1) sz by (simp add: m_def)
    have "lowerIndex axis sz val = Inr (int k)"
      using len sz lo hi _ kb _ _ nomatch
      by (rule lowerIndex_first) (use k(2,3) in \<open>simp_all add: suc\<close>)
    with k(2,3) kb nomatch show ?thesis
      by (intro exI [of _ "int k"]) (simp add: suc)
  qed
  have tie: "lowerIndex axis sz (axis ! nat b) = Inr (b - 1)" if b: "0 < b" "b < sz - 1"
  proof -
    have nb: "nat (b - 1 + 1) = nat b" by simp
    have "axis ! 0 < axis ! nat b"
      using b len by (intro less) simp_all
    moreover have "axis ! nat b < axis ! nat (sz - 1)"
      using b len by (intro less) simp_all
    moreover have "0 \<le> b - 1" and "b - 1 < sz - 1" using b by simp_all
    moreover have "axis ! nat (b - 1) \<le> axis ! nat b"
      using b len by (intro less_imp_le less) simp_all
    moreover have "axis ! nat b \<le> axis ! nat (b - 1 + 1)" by (simp add: nb)
    moreover have "\<forall>j. 0 \<le> j \<and> j < b - 1 \<longrightarrow>
        \<not> (axis ! nat j \<le> axis ! nat b \<and> axis ! nat b \<le> axis ! nat (j + 1))"
    proof (intro allI impI)
      fix j :: int
      assume j: "0 \<le> j \<and> j < b - 1"
      have "axis ! nat (j + 1) < axis ! nat b"
        using j b len by (intro less) simp_all
      then show "\<not> (axis ! nat j \<le> axis ! nat b \<and> axis ! nat b \<le> axis ! nat (j + 1))"
        by simp
    qed
    ultimately show ?thesis
      using len sz by (intro lowerIndex_first)
  qed
  from low high mid tie show ?thesis by blast
qed

theorem lowerIndex_locates_witness:
  "sorted_wrt (<) main_loadAxis \<and> length main_loadAxis = nat 5 \<and> (2 :: int) \<le> 5 \<and>
   10 \<le> main_loadAxis ! 0 \<and> lowerIndex main_loadAxis 5 10 = Inr 0 \<and>
   main_loadAxis ! nat (5 - 1) \<le> 120 \<and> lowerIndex main_loadAxis 5 120 = Inr (5 - 2) \<and>
   main_loadAxis ! 0 < 50 \<and> 50 < main_loadAxis ! nat (5 - 1) \<and>
   (\<exists>i. lowerIndex main_loadAxis 5 50 = Inr i \<and>
        main_loadAxis ! nat i \<le> 50 \<and> 50 \<le> main_loadAxis ! nat (i + 1)) \<and>
   (0 :: int) < 3 \<and> (3 :: int) < 5 - 1 \<and>
   lowerIndex main_loadAxis 5 (main_loadAxis ! nat 3) = Inr (3 - 1)"
proof -
  have h: "sorted_wrt (<) main_loadAxis" "length main_loadAxis = nat 5" "(2 :: int) \<le> 5"
    by (simp_all add: main_loadAxis_def)
  have v: "main_loadAxis ! 0 = 20" "main_loadAxis ! nat (5 - 1) = 100"
    by (simp_all add: main_loadAxis_def)
  from lowerIndex_locates [OF h, of 10 3] lowerIndex_locates [OF h, of 120 3]
    lowerIndex_locates [OF h, of 50 3] h v
  show ?thesis by auto
qed

section \<open>Bounds of the lookup\<close>

lemma index_bounds:
  assumes "0 \<le> l" "l \<le> LOAD_POINTS - 1" "0 \<le> r" "r \<le> RPM_POINTS - 1"
  shows "0 \<le> index l r \<and> index l r < TABLE_SIZE"
proof -
  from assms have "l * 6 + r \<le> 4 * 6 + 5" "0 \<le> l * 6 + r"
    by (simp_all add: LOAD_POINTS_def RPM_POINTS_def)
  then show ?thesis
    by (simp add: index_def TABLE_SIZE_def LOAD_POINTS_def RPM_POINTS_def)
qed

lemma targetAFR_reads:
  assumes lr: "length (rpmAxis fm) = nat RPM_POINTS"
    and ll: "length (loadAxis fm) = nat LOAD_POINTS"
    and lt: "length (afrTable fm) = nat TABLE_SIZE"
    and r: "lowerIndex (rpmAxis fm) RPM_POINTS rpm_v = Inr r"
    and l: "lowerIndex (loadAxis fm) LOAD_POINTS load_v = Inr l"
  shows "targetAFR fm rpm_v load_v =
     andThen (isub rpm_v (rpmAxis fm ! nat r)) (\<lambda>rnum.
     andThen (isub (rpmAxis fm ! nat (r + 1)) (rpmAxis fm ! nat r)) (\<lambda>rden.
     andThen (isub load_v (loadAxis fm ! nat l)) (\<lambda>lnum.
     andThen (isub (loadAxis fm ! nat (l + 1)) (loadAxis fm ! nat l)) (\<lambda>lden.
       Inr (lerp
         (lerp (afrTable fm ! nat (index l r)) (afrTable fm ! nat (index l (r + 1)))
            (ddiv (to_double rnum) (to_double rden)))
         (lerp (afrTable fm ! nat (index (l + 1) r)) (afrTable fm ! nat (index (l + 1) (r + 1)))
            (ddiv (to_double rnum) (to_double rden)))
         (ddiv (to_double lnum) (to_double lden)))))))"
proof -
  from lowerIndex_range [of "rpmAxis fm" RPM_POINTS rpm_v] lr r
  have rb: "0 \<le> r" "r \<le> RPM_POINTS - 2" by (simp_all add: RPM_POINTS_def)
  from lowerIndex_range [of "loadAxis fm" LOAD_POINTS load_v] ll l
  have lb: "0 \<le> l" "l \<le> LOAD_POINTS - 2" by (simp_all add: LOAD_POINTS_def)
  from rb lr have a: "rd (rpmAxis fm) r = Inr (rpmAxis fm ! nat r)"
    "rd (rpmAxis fm) (r + 1) = Inr (rpmAxis fm ! nat (r + 1))"
    by (simp_all add: rd_def)
  from lb ll have b: "rd (loadAxis fm) l = Inr (loadAxis fm ! nat l)"
    "rd (loadAxis fm) (l + 1) = Inr (loadAxis fm ! nat (l + 1))"
    by (simp_all add: rd_def)
  have q: "rd (afrTable fm) (index i j) = Inr (afrTable fm ! nat (index i j))"
    if "0 \<le> i" "i \<le> LOAD_POINTS - 1" "0 \<le> j" "j \<le> RPM_POINTS - 1" for i j
    using index_bounds [OF that] lt by (simp add: rd_def)
  have c: "rd (afrTable fm) (index l r) = Inr (afrTable fm ! nat (index l r))"
    "rd (afrTable fm) (index l (r + 1)) = Inr (afrTable fm ! nat (index l (r + 1)))"
    "rd (afrTable fm) (index (l + 1) r) = Inr (afrTable fm ! nat (index (l + 1) r))"
    "rd (afrTable fm) (index (l + 1) (r + 1)) = Inr (afrTable fm ! nat (index (l + 1) (r + 1)))"
    using rb lb by (simp_all add: q)
  show ?thesis
    unfolding targetAFR_def by (simp add: r l a b c andThen_def Let_def split: sum.split)
qed

text \<open>
  C9. For every axis of size at least 2 (strictly increasing or not) and every query
  value, \<open>lowerIndex\<close> returns an index between 0 and \<open>size - 2\<close>. Hence in
  \<open>targetAFR\<close>, for axes of \<open>RPM_POINTS\<close> and \<open>LOAD_POINTS\<close> breakpoints and a table of
  \<open>TABLE_SIZE\<close> cells, \<open>r + 1 <= RPM_POINTS - 1\<close> and \<open>l + 1 <= LOAD_POINTS - 1\<close>, the
  four cells \<open>index l r\<close>, \<open>index l (r + 1)\<close>, \<open>index (l + 1) r\<close> and
  \<open>index (l + 1) (r + 1)\<close> lie within the table, and no read is out of bounds.
\<close>

theorem lookup_in_bounds:
  "(length axis = nat sz \<and> 2 \<le> sz \<longrightarrow>
      (\<exists>k. lowerIndex axis sz val = Inr k \<and> 0 \<le> k \<and> k \<le> sz - 2)) \<and>
   (length (rpmAxis fm) = nat RPM_POINTS \<and> length (loadAxis fm) = nat LOAD_POINTS \<and>
    length (afrTable fm) = nat TABLE_SIZE \<longrightarrow>
      (\<exists>r l. lowerIndex (rpmAxis fm) RPM_POINTS rpm_v = Inr r \<and>
             lowerIndex (loadAxis fm) LOAD_POINTS load_v = Inr l \<and>
             0 \<le> r \<and> r + 1 \<le> RPM_POINTS - 1 \<and> 0 \<le> l \<and> l + 1 \<le> LOAD_POINTS - 1 \<and>
             (\<forall>i\<in>{index l r, index l (r + 1), index (l + 1) r, index (l + 1) (r + 1)}.
                0 \<le> i \<and> i < TABLE_SIZE) \<and>
             targetAFR fm rpm_v load_v \<noteq> Inl OutOfBounds))"
proof (intro conjI impI)
  assume "length axis = nat sz \<and> 2 \<le> sz"
  then show "\<exists>k. lowerIndex axis sz val = Inr k \<and> 0 \<le> k \<and> k \<le> sz - 2"
    by (simp add: lowerIndex_range)
next
  assume lens: "length (rpmAxis fm) = nat RPM_POINTS \<and> length (loadAxis fm) = nat LOAD_POINTS \<and>
    length (afrTable fm) = nat TABLE_SIZE"
  from lens lowerIndex_range [of "rpmAxis fm" RPM_POINTS rpm_v]
  obtain r where r: "lowerIndex (rpmAxis fm) RPM_POINTS rpm_v = Inr r" "0 \<le> r" "r \<le> RPM_POINTS - 2"
    by (auto simp add: RPM_POINTS_def)
  from lens lowerIndex_range [of "loadAxis fm" LOAD_POINTS load_v]
  obtain l where l: "lowerIndex (loadAxis fm) LOAD_POINTS load_v = Inr l" "0 \<le> l" "l \<le> LOAD_POINTS - 2"
    by (auto simp add: LOAD_POINTS_def)
  have cells: "\<forall>i\<in>{index l r, index l (r + 1), index (l + 1) r, index (l + 1) (r + 1)}.
                0 \<le> i \<and> i < TABLE_SIZE"
    using r(2,3) l(2,3) by (simp add: index_bounds)
  have "targetAFR fm rpm_v load_v \<noteq> Inl OutOfBounds"
    using lens r(1) l(1)
    by (simp add: targetAFR_reads andThen_def isub_def)
  with r l cells show "\<exists>r l. lowerIndex (rpmAxis fm) RPM_POINTS rpm_v = Inr r \<and>
             lowerIndex (loadAxis fm) LOAD_POINTS load_v = Inr l \<and>
             0 \<le> r \<and> r + 1 \<le> RPM_POINTS - 1 \<and> 0 \<le> l \<and> l + 1 \<le> LOAD_POINTS - 1 \<and>
             (\<forall>i\<in>{index l r, index l (r + 1), index (l + 1) r, index (l + 1) (r + 1)}.
                0 \<le> i \<and> i < TABLE_SIZE) \<and>
             targetAFR fm rpm_v load_v \<noteq> Inl OutOfBounds"
    by (intro exI [of _ r] exI [of _ l]) simp
qed

theorem lookup_in_bounds_witness:
  "length main_loadAxis = nat 5 \<and> (2 :: int) \<le> 5 \<and>
   (\<exists>k. lowerIndex main_loadAxis 5 80 = Inr k \<and> 0 \<le> k \<and> k \<le> 5 - 2) \<and>
   length (rpmAxis main_map) = nat RPM_POINTS \<and> length (loadAxis main_map) = nat LOAD_POINTS \<and>
   length (afrTable main_map) = nat TABLE_SIZE \<and>
   (\<exists>r l. lowerIndex (rpmAxis main_map) RPM_POINTS 3500 = Inr r \<and>
          lowerIndex (loadAxis main_map) LOAD_POINTS 80 = Inr l \<and>
          0 \<le> r \<and> r + 1 \<le> RPM_POINTS - 1 \<and> 0 \<le> l \<and> l + 1 \<le> LOAD_POINTS - 1 \<and>
          (\<forall>i\<in>{index l r, index l (r + 1), index (l + 1) r, index (l + 1) (r + 1)}.
             0 \<le> i \<and> i < TABLE_SIZE) \<and>
          targetAFR main_map 3500 80 \<noteq> Inl OutOfBounds)"
proof -
  have h1: "length main_loadAxis = nat 5 \<and> (2 :: int) \<le> 5"
    by (simp add: main_loadAxis_def)
  have h2: "length (rpmAxis main_map) = nat RPM_POINTS \<and>
    length (loadAxis main_map) = nat LOAD_POINTS \<and> length (afrTable main_map) = nat TABLE_SIZE"
    by (simp add: main_map_def main_rpmAxis_def main_loadAxis_def main_afrTable_def
          RPM_POINTS_def LOAD_POINTS_def TABLE_SIZE_def)
  from lookup_in_bounds [of main_loadAxis 5 80 main_map 3500 80] h1 h2
  show ?thesis by blast
qed

section \<open>A zero-width axis interval\<close>

text \<open>
  C4, as the specification states it, does not hold. With the first two speed
  breakpoints both 1000, the query (1000, 50) locates the zero-width interval;
  \<open>targetAFR\<close> divides 0 by 0 and returns NaN as the target AFR. No error is signalled.
\<close>

theorem zero_width_interval_yields_NaN:
  "targetAFR degenerate_map 1000 50 = Inr NaN"
  unfolding targetAFR_def
  by (simp add: degenerate_map_def lowerIndex_def main_loadAxis_def andThen_def rd_def
        lowerIndex_loop.simps RPM_POINTS_def LOAD_POINTS_def isub_def INT_MIN_def INT_MAX_def
        to_double_def index_def main_afrTable_def lerp_def dsub_def)

text \<open>
  C4, amended. If a zero-width axis interval is encountered while the interpolation
  fractions are computed in \<open>targetAFR\<close> (axes of \<open>RPM_POINTS\<close> and \<open>LOAD_POINTS\<close>
  breakpoints, a table of \<open>TABLE_SIZE\<close> cells, no integer overflow), the computation
  signals no error: it divides by zero and returns a value that is not finite
  (NaN or an infinity) as the target AFR.
\<close>

theorem targetAFR_degenerate:
  assumes lr: "length (rpmAxis fm) = nat RPM_POINTS"
    and ll: "length (loadAxis fm) = nat LOAD_POINTS"
    and lt: "length (afrTable fm) = nat TABLE_SIZE"
    and nr: "no_overflow (rpmAxis fm) rpm_v"
    and nl: "no_overflow (loadAxis fm) load_v"
    and r: "lowerIndex (rpmAxis fm) RPM_POINTS rpm_v = Inr r"
    and l: "lowerIndex (loadAxis fm) LOAD_POINTS load_v = Inr l"
    and zero: "rpmAxis fm ! nat (r + 1) = rpmAxis fm ! nat r \<or>
               loadAxis fm ! nat (l + 1) = loadAxis fm ! nat l"
  shows "\<exists>d. targetAFR fm rpm_v load_v = Inr d \<and> \<not> is_finite d"
proof -
  from lowerIndex_range [of "rpmAxis fm" RPM_POINTS rpm_v] lr r
  have rb: "0 \<le> r" "r \<le> RPM_POINTS - 2" by (simp_all add: RPM_POINTS_def)
  from lowerIndex_range [of "loadAxis fm" LOAD_POINTS load_v] ll l
  have lb: "0 \<le> l" "l \<le> LOAD_POINTS - 2" by (simp_all add: LOAD_POINTS_def)
  from rb lr have mr: "rpmAxis fm ! nat r \<in> set (rpmAxis fm)" "rpmAxis fm ! nat (r + 1) \<in> set (rpmAxis fm)"
    by (simp_all add: RPM_POINTS_def)
  from lb ll have ml: "loadAxis fm ! nat l \<in> set (loadAxis fm)" "loadAxis fm ! nat (l + 1) \<in> set (loadAxis fm)"
    by (simp_all add: LOAD_POINTS_def)
  from nr mr have sr: "isub rpm_v (rpmAxis fm ! nat r) = Inr (rpm_v - rpmAxis fm ! nat r)"
    "isub (rpmAxis fm ! nat (r + 1)) (rpmAxis fm ! nat r) = Inr (rpmAxis fm ! nat (r + 1) - rpmAxis fm ! nat r)"
    by (simp_all add: no_overflow_def isub_def)
  from nl ml have sl: "isub load_v (loadAxis fm ! nat l) = Inr (load_v - loadAxis fm ! nat l)"
    "isub (loadAxis fm ! nat (l + 1)) (loadAxis fm ! nat l) = Inr (loadAxis fm ! nat (l + 1) - loadAxis fm ! nat l)"
    by (simp_all add: no_overflow_def isub_def)
  define rT where "rT = ddiv (to_double (rpm_v - rpmAxis fm ! nat r))
     (to_double (rpmAxis fm ! nat (r + 1) - rpmAxis fm ! nat r))"
  define lT where "lT = ddiv (to_double (load_v - loadAxis fm ! nat l))
     (to_double (loadAxis fm ! nat (l + 1) - loadAxis fm ! nat l))"
  define q11 where "q11 = afrTable fm ! nat (index l r)"
  define q12 where "q12 = afrTable fm ! nat (index l (r + 1))"
  define q21 where "q21 = afrTable fm ! nat (index (l + 1) r)"
  define q22 where "q22 = afrTable fm ! nat (index (l + 1) (r + 1))"
  have val: "targetAFR fm rpm_v load_v = Inr (lerp (lerp q11 q12 rT) (lerp q21 q22 rT) lT)"
    by (simp add: targetAFR_reads [OF lr ll lt r l] sr sl andThen_def
        rT_def lT_def q11_def q12_def q21_def q22_def)
  from zero have "\<not> is_finite (lerp (lerp q11 q12 rT) (lerp q21 q22 rT) lT)"
  proof
    assume "rpmAxis fm ! nat (r + 1) = rpmAxis fm ! nat r"
    then have "\<not> is_finite rT" by (simp add: rT_def to_double_def)
    then show ?thesis by (intro nf_lerp_a nf_lerp_t)
  next
    assume "loadAxis fm ! nat (l + 1) = loadAxis fm ! nat l"
    then have "\<not> is_finite lT" by (simp add: lT_def to_double_def)
    then show ?thesis by (rule nf_lerp_t)
  qed
  with val show ?thesis by simp
qed

theorem targetAFR_degenerate_witness:
  "length (rpmAxis degenerate_map) = nat RPM_POINTS \<and>
   length (loadAxis degenerate_map) = nat LOAD_POINTS \<and>
   length (afrTable degenerate_map) = nat TABLE_SIZE \<and>
   no_overflow (rpmAxis degenerate_map) 900 \<and> no_overflow (loadAxis degenerate_map) 50 \<and>
   lowerIndex (rpmAxis degenerate_map) RPM_POINTS 900 = Inr 0 \<and>
   lowerIndex (loadAxis degenerate_map) LOAD_POINTS 50 = Inr 1 \<and>
   rpmAxis degenerate_map ! nat (0 + 1) = rpmAxis degenerate_map ! nat 0 \<and>
   (\<exists>d. targetAFR degenerate_map 900 50 = Inr d \<and> \<not> is_finite d)"
proof -
  have h: "length (rpmAxis degenerate_map) = nat RPM_POINTS"
    "length (loadAxis degenerate_map) = nat LOAD_POINTS"
    "length (afrTable degenerate_map) = nat TABLE_SIZE"
    "no_overflow (rpmAxis degenerate_map) 900" "no_overflow (loadAxis degenerate_map) 50"
    "lowerIndex (rpmAxis degenerate_map) RPM_POINTS 900 = Inr 0"
    "lowerIndex (loadAxis degenerate_map) LOAD_POINTS 50 = Inr 1"
    by (simp_all add: degenerate_map_def main_loadAxis_def main_afrTable_def RPM_POINTS_def
          LOAD_POINTS_def TABLE_SIZE_def no_overflow_def INT_MIN_def INT_MAX_def
          lowerIndex_def andThen_def rd_def lowerIndex_loop.simps)
  have z: "rpmAxis degenerate_map ! nat (0 + 1) = rpmAxis degenerate_map ! nat 0 \<or>
           loadAxis degenerate_map ! nat (1 + 1) = loadAxis degenerate_map ! nat 1"
    by (simp add: degenerate_map_def)
  from targetAFR_degenerate [OF h z] h z show ?thesis
    by (simp add: degenerate_map_def)
qed

end
